theory Spec2Isabelle
  imports Main "HOL-Library.Word"
begin

unbundle bit_operations_syntax

section \<open>JavaScript values used by generate-html.js\<close>

text \<open>
  A Node \<open>Buffer\<close> is a list of octets. A JavaScript string is modelled by the list of
  its UTF-8 octets (for ASCII text: its characters), which is what the program's
  strings are made from (protobuf string fields, the command line) and turned into
  (percent-encoding). This is exact for well-formed UTF-8; the replacement characters
  that Node puts in place of ill-formed UTF-8 are outside the model.
  A property that may be \<open>undefined\<close> is an \<open>option\<close>, \<open>None\<close> being \<open>undefined\<close>.
\<close>

type_synonym byte = "8 word"

datatype js_error =
    InvalidMigrationUrl   \<comment> \<open>\<open>new Error('Invalid Google Authenticator migration URL')\<close>\<close>
  | TypeError             \<comment> \<open>a property read or a call on \<open>undefined\<close>, a call of a non-function\<close>
  | RangeError            \<comment> \<open>protobufjs: index out of range\<close>
  | WireError             \<comment> \<open>protobufjs: invalid wire type, invalid varint encoding\<close>

text \<open>\<open>`${x}`\<close> and \<open>String(x)\<close> on a string that may be undefined.\<close>

definition js_string :: "string option \<Rightarrow> string" where
  "js_string x = (case x of None \<Rightarrow> ''undefined'' | Some s \<Rightarrow> s)"

text \<open>Truthiness of a string that may be undefined: only \<open>undefined\<close> and \<open>''\<close> are falsy.\<close>

definition truthy :: "string option \<Rightarrow> bool" where
  "truthy x = (case x of None \<Rightarrow> False | Some s \<Rightarrow> s \<noteq> [])"

text \<open>\<open>Array.prototype.join\<close>.\<close>

fun join :: "string \<Rightarrow> string list \<Rightarrow> string" where
  "join sep [] = []"
| "join sep [x] = x"
| "join sep (x # y # ys) = x @ sep @ join sep (y # ys)"

text \<open>\<open>Array.prototype.map\<close> with a callback that may throw: the first exception ends it.\<close>

fun map_throwing :: "('a \<Rightarrow> js_error + 'b) \<Rightarrow> 'a list \<Rightarrow> js_error + 'b list" where
  "map_throwing f [] = Inr []"
| "map_throwing f (x # xs) =
     (case f x of
        Inl e \<Rightarrow> Inl e
      | Inr y \<Rightarrow> (case map_throwing f xs of Inl e \<Rightarrow> Inl e | Inr ys \<Rightarrow> Inr (y # ys)))"

definition hex_upper :: "nat \<Rightarrow> char" where
  "hex_upper n = ''0123456789ABCDEF'' ! (n mod 16)"

definition hex_lower :: "nat \<Rightarrow> char" where
  "hex_lower n = ''0123456789abcdef'' ! (n mod 16)"

text \<open>\<open>buffer.toString('hex')\<close>: two lowercase digits per octet.\<close>

definition toString_hex :: "byte list \<Rightarrow> string" where
  "toString_hex bs = concat (map (\<lambda>b. [hex_lower (unat b div 16), hex_lower (unat b)]) bs)"

text \<open>
  \<open>encodeURIComponent\<close>: the unreserved characters \<open>A-Z a-z 0-9 - _ . ! ~ * ' ( )\<close>
  stay, every other octet of the UTF-8 form becomes \<open>%XX\<close> with uppercase digits.
\<close>

definition uri_unreserved :: "char \<Rightarrow> bool" where
  "uri_unreserved c \<longleftrightarrow>
     c \<in> set (''ABCDEFGHIJKLMNOPQRSTUVWXYZabcdefghijklmnopqrstuvwxyz0123456789-_.!~*()''
              @ [CHR 0x27])"

definition encodeURIComponent :: "string \<Rightarrow> string" where
  "encodeURIComponent s =
     concat (map (\<lambda>c. if uri_unreserved c then [c]
                       else [CHR ''%'', hex_upper (of_char c div 16), hex_upper (of_char c)]) s)"

section \<open>The base32 encoder of hi-base32\<close>

definition BASE32_ENCODE_CHAR :: "string" where
  "BASE32_ENCODE_CHAR = ''ABCDEFGHIJKLMNOPQRSTUVWXYZ234567''"

definition enc_char :: "32 word \<Rightarrow> char" where
  "enc_char v = BASE32_ENCODE_CHAR ! unat v"

text \<open>
  \<open>encodeBytes\<close>: five octets give eight characters; the last one to four octets give
  two, four, five or seven characters and \<open>=\<close> up to eight. The octets are read into
  JavaScript numbers, so the shifts are 32-bit.
\<close>

fun encodeBytes :: "byte list \<Rightarrow> string" where
  "encodeBytes (b1 # b2 # b3 # b4 # b5 # rest) =
     (let v1 = ucast b1; v2 = ucast b2; v3 = ucast b3; v4 = ucast b4; v5 = ucast b5 in
      [enc_char (drop_bit 3 v1),
       enc_char ((push_bit 2 v1 OR drop_bit 6 v2) AND 31),
       enc_char (drop_bit 1 v2 AND 31),
       enc_char ((push_bit 4 v2 OR drop_bit 4 v3) AND 31),
       enc_char ((push_bit 1 v3 OR drop_bit 7 v4) AND 31),
       enc_char (drop_bit 2 v4 AND 31),
       enc_char ((push_bit 3 v4 OR drop_bit 5 v5) AND 31),
       enc_char (v5 AND 31)] @ encodeBytes rest)"
| "encodeBytes [b1, b2, b3, b4] =
     (let v1 = ucast b1; v2 = ucast b2; v3 = ucast b3; v4 = ucast b4 in
      [enc_char (drop_bit 3 v1),
       enc_char ((push_bit 2 v1 OR drop_bit 6 v2) AND 31),
       enc_char (drop_bit 1 v2 AND 31),
       enc_char ((push_bit 4 v2 OR drop_bit 4 v3) AND 31),
       enc_char ((push_bit 1 v3 OR drop_bit 7 v4) AND 31),
       enc_char (drop_bit 2 v4 AND 31),
       enc_char (push_bit 3 v4 AND 31)] @ ''='')"
| "encodeBytes [b1, b2, b3] =
     (let v1 = ucast b1; v2 = ucast b2; v3 = ucast b3 in
      [enc_char (drop_bit 3 v1),
       enc_char ((push_bit 2 v1 OR drop_bit 6 v2) AND 31),
       enc_char (drop_bit 1 v2 AND 31),
       enc_char ((push_bit 4 v2 OR drop_bit 4 v3) AND 31),
       enc_char (push_bit 1 v3 AND 31)] @ ''==='')"
| "encodeBytes [b1, b2] =
     (let v1 = ucast b1; v2 = ucast b2 in
      [enc_char (drop_bit 3 v1),
       enc_char ((push_bit 2 v1 OR drop_bit 6 v2) AND 31),
       enc_char (drop_bit 1 v2 AND 31),
       enc_char (push_bit 4 v2 AND 31)] @ ''===='')"
| "encodeBytes [b1] =
     (let v1 = ucast b1 in
      [enc_char (drop_bit 3 v1),
       enc_char (push_bit 2 v1 AND 31)] @ ''======'')"
| "encodeBytes [] = []"

text \<open>
  \<open>base32.encode(input)\<close> on a Buffer calls \<open>encodeBytes\<close>; on \<open>undefined\<close> it reads
  \<open>input.constructor\<close> and throws a TypeError.
\<close>

definition base32_encode :: "byte list option \<Rightarrow> js_error + string" where
  "base32_encode input = (case input of None \<Rightarrow> Inl TypeError | Some bs \<Rightarrow> Inr (encodeBytes bs))"

section \<open>generate-html.js: the tables and the URL builder\<close>

text \<open>
  The three tables are objects keyed by the enum names. A key that is not listed reads as
  \<open>undefined\<close>; the key of \<open>table[undefined]\<close> is the string \<open>undefined\<close>.
\<close>

definition algorithmNames :: "string \<rightharpoonup> string" where
  "algorithmNames =
     [''ALGORITHM_UNSPECIFIED'' \<mapsto> ''SHA1'',
      ''ALGORITHM_SHA1'' \<mapsto> ''SHA1'',
      ''ALGORITHM_SHA256'' \<mapsto> ''SHA256'',
      ''ALGORITHM_SHA512'' \<mapsto> ''SHA512'',
      ''ALGORITHM_MD5'' \<mapsto> ''MD5'']"

definition digitCounts :: "string \<rightharpoonup> string" where
  "digitCounts =
     [''DIGIT_COUNT_UNSPECIFIED'' \<mapsto> ''6'',
      ''DIGIT_COUNT_SIX'' \<mapsto> ''6'',
      ''DIGIT_COUNT_EIGHT'' \<mapsto> ''8'']"

definition otpTypes :: "string \<rightharpoonup> string" where
  "otpTypes =
     [''OTP_TYPE_UNSPECIFIED'' \<mapsto> ''totp'',
      ''OTP_TYPE_HOTP'' \<mapsto> ''hotp'',
      ''OTP_TYPE_TOTP'' \<mapsto> ''totp'']"

text \<open>\<open>table[key]\<close> with a key that may be undefined.\<close>

definition lookup :: "(string \<rightharpoonup> string) \<Rightarrow> string option \<Rightarrow> string option" where
  "lookup table key = table (js_string key)"

text \<open>
  One element of \<open>payload.otpParameters\<close>, as \<open>Payload.toObject\<close> produces it with
  \<open>longs: String, enums: String, bytes: Buffer\<close>: enum fields are enum names, the counter
  is a decimal string, and a field that the message does not carry is undefined.
\<close>

record otp_params =
  secret :: "byte list option"
  name :: "string option"
  issuer :: "string option"
  algorithm :: "string option"
  digits :: "string option"
  type :: "string option"
  counter :: "string option"

definition secretToBase32 :: "byte list option \<Rightarrow> js_error + string" where
  "secretToBase32 secretBytes =
     (case base32_encode secretBytes of
        Inl e \<Rightarrow> Inl e
      | Inr s \<Rightarrow> Inr (filter (\<lambda>c. c \<noteq> CHR ''='') s))"

definition createOtpauthUrl :: "otp_params \<Rightarrow> js_error + string" where
  "createOtpauthUrl params =
     (let otpType = lookup otpTypes (type params);
          path = encodeURIComponent (js_string (name params));
          result = ''otpauth://'' @ js_string otpType @ ''/'' @ path @ ''?'';
          queryParams = []
      in case secretToBase32 (secret params) of
           Inl e \<Rightarrow> Inl e
         | Inr s \<Rightarrow>
             let queryParams = queryParams @ [''secret='' @ s];
                 queryParams =
                   (if truthy (issuer params)
                    then queryParams @ [''issuer='' @ encodeURIComponent (js_string (issuer params))]
                    else queryParams);
                 algo = lookup algorithmNames (algorithm params);
                 queryParams = queryParams @ [''algorithm='' @ js_string algo];
                 digits = lookup digitCounts (digits params);
                 queryParams = queryParams @ [''digits='' @ js_string digits];
                 queryParams =
                   (if otpType = Some ''hotp'' \<and> truthy (counter params)
                    then queryParams @ [''counter='' @ js_string (counter params)]
                    else queryParams);
                 queryParams =
                   (if otpType = Some ''totp''
                    then queryParams @ [''period=30'']
                    else queryParams)
             in Inr (result @ join ''&'' queryParams))"

section \<open>Node's url.parse, querystring.parse and Buffer.from(_, 'base64')\<close>

text \<open>\<open>String.prototype.split\<close> with a one-character separator.\<close>

fun split_on :: "char \<Rightarrow> string \<Rightarrow> string list" where
  "split_on d [] = [[]]"
| "split_on d (c # cs) =
     (case split_on d cs of
        [] \<Rightarrow> [[c]]
      | x # xs \<Rightarrow> if c = d then [] # x # xs else (c # x) # xs)"

definition hex_value :: "char \<Rightarrow> nat option" where
  "hex_value c =
     map_of (zip ''0123456789abcdef'' [0..<16] @ zip ''ABCDEF'' [10..<16]) c"

text \<open>
  The decoding that \<open>querystring.parse\<close> applies to a key or a value whose \<open>+\<close> are
  already spaces: \<open>%XX\<close> with two hexadecimal digits is one octet, any other \<open>%\<close> stays.
\<close>

fun qs_unescape :: "string \<Rightarrow> string" where
  "qs_unescape (c # a # b # cs) =
     (if c = CHR ''%'' then
        (case (hex_value a, hex_value b) of
           (Some x, Some y) \<Rightarrow> char_of (16 * x + y) # qs_unescape cs
         | _ \<Rightarrow> c # qs_unescape (a # b # cs))
      else c # qs_unescape (a # b # cs))"
| "qs_unescape cs = cs"

datatype qs_value = QString string | QArray "string list"

definition addKeyValue :: "(string \<rightharpoonup> qs_value) \<Rightarrow> string \<times> string \<Rightarrow> (string \<rightharpoonup> qs_value)" where
  "addKeyValue obj kv =
     (case kv of (key, v) \<Rightarrow>
        (case obj key of
           None \<Rightarrow> obj(key \<mapsto> QString v)
         | Some (QString old) \<Rightarrow> obj(key \<mapsto> QArray [old, v])
         | Some (QArray olds) \<Rightarrow> obj(key \<mapsto> QArray (olds @ [v]))))"

definition plus_to_space :: "string \<Rightarrow> string" where
  "plus_to_space s = map (\<lambda>c. if c = CHR ''+'' then CHR '' '' else c) s"

definition qs_pair :: "string \<Rightarrow> string \<times> string" where
  "qs_pair item =
     (qs_unescape (plus_to_space (takeWhile (\<lambda>c. c \<noteq> CHR ''='') item)),
      qs_unescape (plus_to_space (drop 1 (dropWhile (\<lambda>c. c \<noteq> CHR ''='') item))))"

text \<open>
  \<open>querystring.parse(qs)\<close>: the pieces between \<open>&\<close>, at most 1000 of them, empty pieces
  skipped; each is cut at its first \<open>=\<close>; a key that comes again collects its values in
  an array.
\<close>

definition querystring_parse :: "string \<Rightarrow> (string \<rightharpoonup> qs_value)" where
  "querystring_parse qs =
     foldl addKeyValue Map.empty
       (map qs_pair (filter (\<lambda>item. item \<noteq> []) (take 1000 (split_on (CHR ''&'') qs))))"

record parsed_url =
  protocol :: "string option"
  host :: "string option"
  query :: "string \<rightharpoonup> qs_value"

definition is_ws :: "char \<Rightarrow> bool" where
  "is_ws c \<longleftrightarrow> (of_char c :: nat) < 33"

definition trim_ws :: "string \<Rightarrow> string" where
  "trim_ws s = rev (dropWhile is_ws (rev (dropWhile is_ws s)))"

fun backslashes_to_slashes :: "string \<Rightarrow> string" where
  "backslashes_to_slashes [] = []"
| "backslashes_to_slashes (c # cs) =
     (if c = CHR ''?'' \<or> c = CHR ''#'' then c # cs
      else (if c = CHR 0x5C then CHR ''/'' else c) # backslashes_to_slashes cs)"

definition toLowerCase :: "string \<Rightarrow> string" where
  "toLowerCase s =
     map (\<lambda>c. if c \<in> set ''ABCDEFGHIJKLMNOPQRSTUVWXYZ'' then char_of (of_char c + (32::nat)) else c) s"

text \<open>\<open>protocolPattern = /^[a-z0-9.+-]+:/i\<close>: the matched text, colon included.\<close>

definition protocolPattern :: "string \<Rightarrow> string option" where
  "protocolPattern rest =
     (let p = takeWhile (\<lambda>c. c \<in> set
                ''abcdefghijklmnopqrstuvwxyzABCDEFGHIJKLMNOPQRSTUVWXYZ0123456789.+-'') rest
      in if p \<noteq> [] \<and> take 1 (drop (length p) rest) = '':'' then Some (p @ '':'') else None)"

definition hostlessProtocol :: "string \<Rightarrow> bool" where
  "hostlessProtocol p \<longleftrightarrow> p \<in> set [''javascript'', ''javascript:'']"

definition slashedProtocol :: "string \<Rightarrow> bool" where
  "slashedProtocol p \<longleftrightarrow>
     p \<in> set [''http'', ''http:'', ''https'', ''https:'', ''ftp'', ''ftp:'', ''gopher'',
               ''gopher:'', ''file'', ''file:'', ''ws'', ''ws:'', ''wss'', ''wss:'']"

text \<open>
  The characters that end the host: \<open>/ ? #\<close>, and those never allowed in a host name:
  space \<open>" % ' ; < > \ ^ ` { | }\<close>.
\<close>

definition host_stop :: "char \<Rightarrow> bool" where
  "host_stop c \<longleftrightarrow> c \<in> set (''/?# %;<>^`{|}'' @ [CHR 0x22, CHR 0x27, CHR 0x5C])"

definition query_of :: "string \<Rightarrow> (string \<rightharpoonup> qs_value)" where
  "query_of rest =
     (let before_hash = takeWhile (\<lambda>c. c \<noteq> CHR ''#'') rest
      in if CHR ''?'' \<in> set before_hash
         then querystring_parse (drop 1 (dropWhile (\<lambda>c. c \<noteq> CHR ''?'') before_hash))
         else Map.empty)"

text \<open>
  \<open>url.parse(url, true)\<close> of Node's legacy parser, as far as the program reads its
  result (\<open>protocol\<close>, \<open>host\<close>, \<open>query\<close>): surrounding whitespace is trimmed, backslashes
  before the query become slashes, the protocol is matched and lower-cased, \<open>//\<close> is
  dropped, the host runs up to the first character that ends it and is lower-cased, the
  query is the text between the first \<open>?\<close> and the first \<open>#\<close> of what follows.

  The model follows the parser on URLs of the shape \<open>scheme://host?query\<close> with a plain
  host name (letters, digits, \<open>.\<close> and \<open>-\<close>, as in \<open>offline\<close>). It leaves out what the
  parser does to other hosts (user-info before \<open>@\<close>, a port, the check of host
  characters, IDNA, the exceptions of newer versions on a forbidden host) and the host of
  a string without protocol, which the program rejects for its protocol alone. The
  parser escapes \<open>{ } | \ ^ ` < > " '\<close> and whitespace to \<open>%XX\<close> before it cuts the query
  out and \<open>querystring.parse\<close> decodes them again; the model keeps them as they are.
\<close>

definition url_parse :: "string \<Rightarrow> parsed_url" where
  "url_parse url =
     (let rest = backslashes_to_slashes (trim_ws url) in
      case protocolPattern rest of
        None \<Rightarrow> \<lparr>protocol = None, host = None, query = query_of rest\<rparr>
      | Some proto \<Rightarrow>
          let lowerProto = toLowerCase proto;
              rest = drop (length proto) rest;
              slashes = (take 2 rest = ''//'');
              rest = (if slashes \<and> \<not> hostlessProtocol lowerProto then drop 2 rest else rest)
          in if \<not> hostlessProtocol lowerProto \<and> (slashes \<or> \<not> slashedProtocol proto)
             then \<lparr>protocol = Some lowerProto,
                   host = Some (toLowerCase (takeWhile (\<lambda>c. \<not> host_stop c) rest)),
                   query = query_of (dropWhile (\<lambda>c. \<not> host_stop c) rest)\<rparr>
             else \<lparr>protocol = Some lowerProto, host = None, query = query_of rest\<rparr>)"

text \<open>
  \<open>Buffer.from(data, 'base64')\<close> never throws. Node's decoder skips every character
  outside the alphabet (which includes \<open>-\<close> and \<open>_\<close> of the URL-safe variant), stops at
  the first \<open>=\<close>, and turns each four sextets into three octets; two or three sextets
  left over give one or two octets, a single one gives none.
\<close>

definition unbase64 :: "char \<Rightarrow> 32 word option" where
  "unbase64 c =
     map_of (zip ''ABCDEFGHIJKLMNOPQRSTUVWXYZabcdefghijklmnopqrstuvwxyz0123456789+/''
                 (map of_nat [0..<64])
             @ [(CHR ''-'', 62), (CHR ''_'', 63)]) c"

fun decode_group :: "32 word list \<Rightarrow> byte list" where
  "decode_group (a # b # c # d # rest) =
     [ucast (push_bit 2 (a AND 0x3F) OR drop_bit 4 (b AND 0x30)),
      ucast (push_bit 4 (b AND 0x0F) OR drop_bit 2 (c AND 0x3C)),
      ucast (push_bit 6 (c AND 0x03) OR (d AND 0x3F))] @ decode_group rest"
| "decode_group [a, b, c] =
     [ucast (push_bit 2 (a AND 0x3F) OR drop_bit 4 (b AND 0x30)),
      ucast (push_bit 4 (b AND 0x0F) OR drop_bit 2 (c AND 0x3C))]"
| "decode_group [a, b] = [ucast (push_bit 2 (a AND 0x3F) OR drop_bit 4 (b AND 0x30))]"
| "decode_group _ = []"

definition Buffer_from_base64 :: "string \<Rightarrow> byte list" where
  "Buffer_from_base64 s =
     decode_group (List.map_filter unbase64 (takeWhile (\<lambda>c. c \<noteq> CHR ''='') s))"

section \<open>generate-html.js: the transport unwrapper\<close>

definition replace_spaces :: "string \<Rightarrow> string" where
  "replace_spaces s = map (\<lambda>c. if c = CHR '' '' then CHR ''+'' else c) s"

text \<open>
  \<open>parsedUrl.query.data || ''\<close> is the value of \<open>data\<close>, or \<open>''\<close> when there is none. When
  \<open>data\<close> comes more than once the value is an array, which has no \<open>replace\<close>: the call
  throws a TypeError.
\<close>

definition extractDataFromUrl :: "string \<Rightarrow> js_error + byte list" where
  "extractDataFromUrl migrationUrl =
     (let parsedUrl = url_parse migrationUrl in
      if protocol parsedUrl \<noteq> Some ''otpauth-migration:'' \<or> host parsedUrl \<noteq> Some ''offline''
      then Inl InvalidMigrationUrl
      else
        let data = (case query parsedUrl ''data'' of None \<Rightarrow> QString [] | Some d \<Rightarrow> d)
        in case data of
             QArray ds \<Rightarrow> Inl TypeError
           | QString data \<Rightarrow> Inr (Buffer_from_base64 (replace_spaces data)))"

section \<open>The protobufjs reader\<close>

text \<open>
  \<open>Payload.decode(data)\<close> wraps the Buffer in a \<open>BufferReader\<close>: the buffer \<open>buf\<close> and a
  position \<open>pos\<close>. Each reading function below takes both and returns what it read with
  the new position, or the exception it throws. \<open>buf[pos]\<close> beyond the end is
  \<open>undefined\<close>: \<open>undefined & 127\<close> is 0 and \<open>undefined < 128\<close> is false.
\<close>

definition buf_at :: "byte list \<Rightarrow> nat \<Rightarrow> byte option" where
  "buf_at buf pos = (if pos < length buf then Some (buf ! pos) else None)"

definition low7 :: "byte option \<Rightarrow> 32 word" where
  "low7 b = (case b of None \<Rightarrow> 0 | Some x \<Rightarrow> ucast x AND 127)"

definition below128 :: "byte option \<Rightarrow> bool" where
  "below128 b = (case b of None \<Rightarrow> False | Some x \<Rightarrow> x < 128)"

text \<open>
  \<open>Reader.prototype.uint32\<close>: up to five octets make the value; after five octets with
  the continuation bit, five more are passed over, or the read fails when they are not
  there.
\<close>

definition uint32 :: "byte list \<Rightarrow> nat \<Rightarrow> js_error + (32 word \<times> nat)" where
  "uint32 buf pos =
     (let v = low7 (buf_at buf pos) in
      if below128 (buf_at buf pos) then Inr (v, pos + 1) else
      let v = v OR push_bit 7 (low7 (buf_at buf (pos + 1))) in
      if below128 (buf_at buf (pos + 1)) then Inr (v, pos + 2) else
      let v = v OR push_bit 14 (low7 (buf_at buf (pos + 2))) in
      if below128 (buf_at buf (pos + 2)) then Inr (v, pos + 3) else
      let v = v OR push_bit 21 (low7 (buf_at buf (pos + 3))) in
      if below128 (buf_at buf (pos + 3)) then Inr (v, pos + 4) else
      let v = v OR push_bit 28 (low7 (buf_at buf (pos + 4)) AND 15) in
      if below128 (buf_at buf (pos + 4)) then Inr (v, pos + 5) else
      if pos + 10 > length buf then Inl RangeError else Inr (v, pos + 10))"

text \<open>\<open>Reader.prototype.int32\<close> is \<open>this.uint32() | 0\<close>: the same bits, read as signed.\<close>

definition int32 :: "byte list \<Rightarrow> nat \<Rightarrow> js_error + (int \<times> nat)" where
  "int32 buf pos = (case uint32 buf pos of Inl e \<Rightarrow> Inl e | Inr (v, p) \<Rightarrow> Inr (sint v, p))"

text \<open>
  One loop of \<open>readLongVarint\<close>: \<open>k\<close> more rounds from round \<open>i\<close>; each round ors seven
  bits into \<open>acc\<close> at \<open>i * 7 + off\<close> and returns when the octet is below 128. The slow
  routes check the position before each read (\<open>checked\<close>). The first component of the
  result says whether the loop returned.
\<close>

fun varint_loop ::
  "bool \<Rightarrow> nat \<Rightarrow> byte list \<Rightarrow> nat \<Rightarrow> nat \<Rightarrow> nat \<Rightarrow> 32 word \<Rightarrow> js_error + (bool \<times> 32 word \<times> nat)" where
  "varint_loop checked off buf 0 i pos acc = Inr (False, acc, pos)"
| "varint_loop checked off buf (Suc k) i pos acc =
     (if checked \<and> pos \<ge> length buf then Inl RangeError
      else
        let acc = acc OR push_bit (i * 7 + off) (low7 (buf_at buf pos)) in
        if below128 (buf_at buf pos) then Inr (True, acc, pos + 1)
        else varint_loop checked off buf k (i + 1) (pos + 1) acc)"

text \<open>\<open>readLongVarint\<close>: the low and the high 32 bits of a varint of up to ten octets.\<close>

definition readLongVarint :: "byte list \<Rightarrow> nat \<Rightarrow> js_error + ((32 word \<times> 32 word) \<times> nat)" where
  "readLongVarint buf pos =
     (let high = (\<lambda>lo hi p.
            case varint_loop (\<not> length buf - p > 4) 3 buf 5 0 p hi of
              Inl e \<Rightarrow> Inl e
            | Inr (True, hi, p) \<Rightarrow> Inr ((lo, hi), p)
            | Inr (False, hi, p) \<Rightarrow> Inl WireError)
      in
      if length buf - pos > 4 then
        (case varint_loop False 0 buf 4 0 pos 0 of
           Inl e \<Rightarrow> Inl e
         | Inr (True, lo, p) \<Rightarrow> Inr ((lo, 0), p)
         | Inr (False, lo, p) \<Rightarrow>
             let lo = lo OR push_bit 28 (low7 (buf_at buf p));
                 hi = drop_bit 4 (low7 (buf_at buf p))
             in if below128 (buf_at buf p) then Inr ((lo, hi), p + 1)
                else high lo hi (p + 1))
      else
        (case varint_loop True 0 buf 3 0 pos 0 of
           Inl e \<Rightarrow> Inl e
         | Inr (True, lo, p) \<Rightarrow> Inr ((lo, 0), p)
         | Inr (False, lo, p) \<Rightarrow>
             Inr ((lo OR push_bit 21 (low7 (buf_at buf p)), 0), p + 1)))"

text \<open>\<open>Reader.prototype.uint64\<close>: the two halves as one unsigned 64-bit value (a Long).\<close>

definition uint64 :: "byte list \<Rightarrow> nat \<Rightarrow> js_error + (64 word \<times> nat)" where
  "uint64 buf pos =
     (case readLongVarint buf pos of
        Inl e \<Rightarrow> Inl e
      | Inr ((lo, hi), p) \<Rightarrow> Inr (push_bit 32 (ucast hi) OR ucast lo, p))"

text \<open>\<open>Reader.prototype.bytes\<close>: a length, then that many octets, which must be there.\<close>

definition bytes :: "byte list \<Rightarrow> nat \<Rightarrow> js_error + (byte list \<times> nat)" where
  "bytes buf pos =
     (case uint32 buf pos of
        Inl e \<Rightarrow> Inl e
      | Inr (len, start) \<Rightarrow>
          if start + unat len > length buf then Inl RangeError
          else Inr (take (unat len) (drop start buf), start + unat len))"

text \<open>
  \<open>BufferReader.prototype.string\<close>: a length, then the octets up to
  \<open>Math.min(pos + len, this.len)\<close>, read as UTF-8.
\<close>

definition string_of_bytes :: "byte list \<Rightarrow> string" where
  "string_of_bytes bs = map (\<lambda>b. char_of (unat b)) bs"

definition string :: "byte list \<Rightarrow> nat \<Rightarrow> js_error + (string \<times> nat)" where
  "string buf pos =
     (case uint32 buf pos of
        Inl e \<Rightarrow> Inl e
      | Inr (len, start) \<Rightarrow>
          let end = min (start + unat len) (length buf)
          in Inr (string_of_bytes (take (end - start) (drop start buf)), end))"

text \<open>\<open>Reader.prototype.skip(length)\<close> and, without argument, the skip of one varint.\<close>

definition skip :: "nat \<Rightarrow> byte list \<Rightarrow> nat \<Rightarrow> js_error + nat" where
  "skip n buf pos = (if pos + n > length buf then Inl RangeError else Inr (pos + n))"

function skip_varint :: "byte list \<Rightarrow> nat \<Rightarrow> js_error + nat" where
  "skip_varint buf pos =
     (if pos \<ge> length buf then Inl RangeError
      else if (buf ! pos) AND 128 \<noteq> 0 then skip_varint buf (pos + 1)
      else Inr (pos + 1))"
  by pat_completeness auto
termination
  by (relation "measure (\<lambda>(buf, pos). length buf - pos)") auto

text \<open>\<open>skipType\<close> on the wire types that are no group.\<close>

definition skip_scalar :: "32 word \<Rightarrow> byte list \<Rightarrow> nat \<Rightarrow> js_error + nat" where
  "skip_scalar wireType buf pos =
     (if wireType = 0 then skip_varint buf pos
      else if wireType = 1 then skip 8 buf pos
      else if wireType = 2 then
        (case uint32 buf pos of Inl e \<Rightarrow> Inl e | Inr (len, p) \<Rightarrow> skip (unat len) buf p)
      else if wireType = 5 then skip 4 buf pos
      else Inl WireError)"

declare skip_varint.simps [simp del]

lemma below128_range: "below128 (buf_at buf q) \<Longrightarrow> q < length buf"
  by (simp add: below128_def buf_at_def split: if_splits)

lemma uint32_pos:
  assumes "uint32 buf pos = Inr (v, p)"
  shows "pos < p \<and> p \<le> length buf"
proof (cases "below128 (buf_at buf pos)")
  case True
  with assms below128_range [OF True] show ?thesis
    by (simp add: uint32_def Let_def)
next
  case f0: False
  show ?thesis
  proof (cases "below128 (buf_at buf (pos + 1))")
    case True
    with assms f0 below128_range [OF True] show ?thesis
      by (simp add: uint32_def Let_def)
  next
    case f1: False
    show ?thesis
    proof (cases "below128 (buf_at buf (pos + 2))")
      case True
      with assms f0 f1 below128_range [OF True] show ?thesis
        by (simp add: uint32_def Let_def)
    next
      case f2: False
      show ?thesis
      proof (cases "below128 (buf_at buf (pos + 3))")
        case True
        with assms f0 f1 f2 below128_range [OF True] show ?thesis
          by (simp add: uint32_def Let_def)
      next
        case f3: False
        show ?thesis
        proof (cases "below128 (buf_at buf (pos + 4))")
          case True
          with assms f0 f1 f2 f3 below128_range [OF True] show ?thesis
            by (simp add: uint32_def Let_def)
        next
          case f4: False
          with assms f0 f1 f2 f3 show ?thesis
            by (simp add: uint32_def Let_def split: if_splits)
        qed
      qed
    qed
  qed
qed

lemma varint_loop_pos:
  "varint_loop checked off buf k i pos acc = Inr (r, acc', p) \<Longrightarrow> pos \<le> p"
proof (induction k arbitrary: i pos acc)
  case 0
  then show ?case by simp
next
  case (Suc k)
  then show ?case
    by (fastforce simp add: Let_def split: if_splits)
qed

lemma skip_varint_pos: "skip_varint buf pos = Inr p \<Longrightarrow> pos < p"
proof (induction buf pos rule: skip_varint.induct)
  case (1 buf pos)
  show ?case
  proof (cases "pos \<ge> length buf")
    case True
    with "1.prems" show ?thesis by (simp add: skip_varint.simps [of buf pos])
  next
    case False
    show ?thesis
    proof (cases "(buf ! pos) AND 128 \<noteq> 0")
      case True
      with False "1.prems" have "skip_varint buf (pos + 1) = Inr p"
        by (simp add: skip_varint.simps [of buf pos])
      with "1.IH" False True show ?thesis by fastforce
    next
      case b: False
      with False "1.prems" show ?thesis
        by (simp add: skip_varint.simps [of buf pos])
    qed
  qed
qed

lemma skip_pos: "skip n buf pos = Inr p \<Longrightarrow> pos \<le> p"
  by (simp add: skip_def split: if_splits)

lemma skip_scalar_pos:
  assumes "skip_scalar wireType buf pos = Inr p"
  shows "pos \<le> p"
proof -
  consider "skip_varint buf pos = Inr p" | "skip 8 buf pos = Inr p" | "skip 4 buf pos = Inr p"
    | len q where "uint32 buf pos = Inr (len, q)" "skip (unat len) buf q = Inr p"
    using assms unfolding skip_scalar_def
    by (auto split: if_splits sum.splits)
  then show ?thesis
  proof cases
    case 1
    then show ?thesis using skip_varint_pos by fastforce
  next
    case 2
    then show ?thesis by (rule skip_pos)
  next
    case 3
    then show ?thesis by (rule skip_pos)
  next
    case 4
    then show ?thesis using uint32_pos skip_pos by fastforce
  qed
qed

function skip_group :: "byte list \<Rightarrow> nat \<Rightarrow> nat \<Rightarrow> js_error + nat" where
  "skip_group buf depth pos =
     (case uint32 buf pos of
        Inl e \<Rightarrow> Inl e
      | Inr (t, p) \<Rightarrow>
          if t AND 7 = 4 then (if depth = 0 then Inr p else skip_group buf (depth - 1) p)
          else if t AND 7 = 3 then skip_group buf (depth + 1) p
          else (case skip_scalar (t AND 7) buf p of
                  Inl e \<Rightarrow> Inl e
                | Inr p' \<Rightarrow> skip_group buf depth p'))"
  by pat_completeness auto
termination
proof (relation "measure (\<lambda>(buf, depth, pos). length buf - pos)", goal_cases)
  case 1
  show ?case by simp
next
  case (2 buf depth pos x t p)
  then have "pos < p \<and> p \<le> length buf" using uint32_pos by metis
  then show ?case by auto
next
  case (3 buf depth pos x t p)
  then have "pos < p \<and> p \<le> length buf" using uint32_pos by metis
  then show ?case by auto
next
  case (4 buf depth pos x t p p')
  then have "pos < p \<and> p \<le> length buf" "p \<le> p'"
    using uint32_pos skip_scalar_pos by metis+
  then show ?case by auto
qed

declare skip_group.simps [simp del]

definition skipType :: "32 word \<Rightarrow> byte list \<Rightarrow> nat \<Rightarrow> js_error + nat" where
  "skipType wireType buf pos =
     (if wireType = 3 then skip_group buf 0 pos else skip_scalar wireType buf pos)"

lemma skip_group_pos: "skip_group buf depth pos = Inr q \<Longrightarrow> pos \<le> q"
proof (induction buf depth pos rule: skip_group.induct)
  case (1 buf depth pos)
  from "1.prems" obtain t p where u: "uint32 buf pos = Inr (t, p)"
    by (subst (asm) skip_group.simps) (auto split: sum.splits)
  then have pp: "pos < p" using uint32_pos by blast
  show ?case
  proof (cases "t AND 7 = 4")
    case True
    show ?thesis
    proof (cases "depth = 0")
      case d: True
      with "1.prems" u True have "q = p"
        by (subst (asm) skip_group.simps) simp
      with pp show ?thesis by simp
    next
      case d: False
      with "1.prems" u True have "skip_group buf (depth - 1) p = Inr q"
        by (subst (asm) skip_group.simps) simp
      with "1.IH"(1) [OF u refl True d] pp show ?thesis by simp
    qed
  next
    case n4: False
    show ?thesis
    proof (cases "t AND 7 = 3")
      case True
      with "1.prems" u n4 have "skip_group buf (depth + 1) p = Inr q"
        by (subst (asm) skip_group.simps) simp
      with "1.IH"(2) [OF u refl n4 True] pp show ?thesis by simp
    next
      case n3: False
      with "1.prems" u n4 obtain p' where s: "skip_scalar (t AND 7) buf p = Inr p'"
        and r: "skip_group buf depth p' = Inr q"
        by (subst (asm) skip_group.simps) (auto split: sum.splits)
      from s have "p \<le> p'" by (rule skip_scalar_pos)
      with "1.IH"(3) [OF u refl n4 n3 s] r pp show ?thesis by simp
    qed
  qed
qed

lemma skipType_pos: "skipType wireType buf pos = Inr p \<Longrightarrow> pos \<le> p"
  unfolding skipType_def
  by (auto split: if_splits dest: skip_group_pos skip_scalar_pos)

section \<open>The decoders that protobufjs generates from the schema\<close>

text \<open>
  A decoded \<open>OtpParameters\<close> message: a field is an own property of the message only
  when the decoder has read it; a field read twice keeps the last value.
\<close>

record OtpParameters =
  m_secret :: "byte list option"
  m_name :: "string option"
  m_issuer :: "string option"
  m_algorithm :: "int option"
  m_digits :: "int option"
  m_type :: "int option"
  m_counter :: "64 word option"

definition OtpParameters_empty :: OtpParameters where
  "OtpParameters_empty =
     \<lparr>m_secret = None, m_name = None, m_issuer = None, m_algorithm = None,
      m_digits = None, m_type = None, m_counter = None\<rparr>"

text \<open>
  The body of the decoding loop, after the tag \<open>t\<close>: \<open>switch (t >>> 3)\<close>. The reading
  function follows from the field number alone; the wire type \<open>t & 7\<close> is only used to
  skip an unknown field.
\<close>

definition OtpParameters_field ::
  "32 word \<Rightarrow> byte list \<Rightarrow> nat \<Rightarrow> OtpParameters \<Rightarrow> js_error + (OtpParameters \<times> nat)" where
  "OtpParameters_field t buf pos m =
     (let field = drop_bit 3 t in
      if field = 1 then
        (case bytes buf pos of Inl e \<Rightarrow> Inl e | Inr (v, p) \<Rightarrow> Inr (m\<lparr>m_secret := Some v\<rparr>, p))
      else if field = 2 then
        (case string buf pos of Inl e \<Rightarrow> Inl e | Inr (v, p) \<Rightarrow> Inr (m\<lparr>m_name := Some v\<rparr>, p))
      else if field = 3 then
        (case string buf pos of Inl e \<Rightarrow> Inl e | Inr (v, p) \<Rightarrow> Inr (m\<lparr>m_issuer := Some v\<rparr>, p))
      else if field = 4 then
        (case int32 buf pos of Inl e \<Rightarrow> Inl e | Inr (v, p) \<Rightarrow> Inr (m\<lparr>m_algorithm := Some v\<rparr>, p))
      else if field = 5 then
        (case int32 buf pos of Inl e \<Rightarrow> Inl e | Inr (v, p) \<Rightarrow> Inr (m\<lparr>m_digits := Some v\<rparr>, p))
      else if field = 6 then
        (case int32 buf pos of Inl e \<Rightarrow> Inl e | Inr (v, p) \<Rightarrow> Inr (m\<lparr>m_type := Some v\<rparr>, p))
      else if field = 7 then
        (case uint64 buf pos of Inl e \<Rightarrow> Inl e | Inr (v, p) \<Rightarrow> Inr (m\<lparr>m_counter := Some v\<rparr>, p))
      else
        (case skipType (t AND 7) buf pos of Inl e \<Rightarrow> Inl e | Inr p \<Rightarrow> Inr (m, p)))"

lemma bytes_pos: "bytes buf pos = Inr (v, p) \<Longrightarrow> pos \<le> p"
  by (auto simp add: bytes_def split: sum.splits if_splits dest: uint32_pos)

lemma string_pos: "string buf pos = Inr (v, p) \<Longrightarrow> pos \<le> p"
  by (auto simp add: string_def Let_def split: sum.splits dest: uint32_pos)

lemma int32_pos: "int32 buf pos = Inr (v, p) \<Longrightarrow> pos \<le> p"
  by (auto simp add: int32_def split: sum.splits dest: uint32_pos)

lemma readLongVarint_pos:
  assumes "readLongVarint buf pos = Inr (v, p)"
  shows "pos \<le> p"
proof (cases "length buf - pos > 4")
  case True
  with assms obtain r lo q where l: "varint_loop False 0 buf 4 0 pos 0 = Inr (r, lo, q)"
    by (auto simp add: readLongVarint_def split: sum.splits)
  then have pq: "pos \<le> q" by (rule varint_loop_pos)
  show ?thesis
  proof (cases r)
    case True
    with assms l \<open>length buf - pos > 4\<close> pq show ?thesis
      by (simp add: readLongVarint_def)
  next
    case r: False
    show ?thesis
    proof (cases "below128 (buf_at buf q)")
      case True
      with assms l \<open>length buf - pos > 4\<close> pq r show ?thesis
        by (auto simp add: readLongVarint_def Let_def)
    next
      case False
      with assms l \<open>length buf - pos > 4\<close> r
      obtain r' hi q' where h: "varint_loop (\<not> length buf - (q + 1) > 4) 3 buf 5 0 (q + 1)
            (drop_bit 4 (low7 (buf_at buf q))) = Inr (r', hi, q')" and "p = q'"
        by (auto simp add: readLongVarint_def Let_def split: sum.splits bool.splits if_splits)
      from varint_loop_pos [OF h] pq \<open>p = q'\<close> show ?thesis by simp
    qed
  qed
next
  case False
  with assms obtain r lo q where l: "varint_loop True 0 buf 3 0 pos 0 = Inr (r, lo, q)"
    by (auto simp add: readLongVarint_def split: sum.splits)
  then have pq: "pos \<le> q" by (rule varint_loop_pos)
  with assms l False show ?thesis
    by (cases r) (auto simp add: readLongVarint_def)
qed

lemma uint64_pos: "uint64 buf pos = Inr (v, p) \<Longrightarrow> pos \<le> p"
  by (auto simp add: uint64_def split: sum.splits dest: readLongVarint_pos)

lemma OtpParameters_field_pos:
  assumes "OtpParameters_field t buf pos m = Inr (m', p)"
  shows "pos \<le> p"
  using assms unfolding OtpParameters_field_def Let_def
  by (auto split: if_splits sum.splits
      dest: bytes_pos string_pos int32_pos uint64_pos skipType_pos)

text \<open>
  \<open>OtpParameters.decode(r, l)\<close>: \<open>c = r.pos + l\<close>, then
  \<open>while (r.pos < c) { t = r.uint32(); switch (t >>> 3) ... }\<close>.
\<close>

function OtpParameters_decode ::
  "byte list \<Rightarrow> nat \<Rightarrow> nat \<Rightarrow> OtpParameters \<Rightarrow> js_error + (OtpParameters \<times> nat)" where
  "OtpParameters_decode buf c pos m =
     (if pos < c then
        (case uint32 buf pos of
           Inl e \<Rightarrow> Inl e
         | Inr (t, p) \<Rightarrow>
             (case OtpParameters_field t buf p m of
                Inl e \<Rightarrow> Inl e
              | Inr (m', p') \<Rightarrow> OtpParameters_decode buf c p' m'))
      else Inr (m, pos))"
  by pat_completeness auto
termination
proof (relation "measure (\<lambda>(buf, c, pos, m). length buf - pos)", goal_cases)
  case 1
  show ?case by simp
next
  case (2 buf c pos m x t p y m' p')
  then have "pos < p \<and> p \<le> length buf" "p \<le> p'"
    using uint32_pos OtpParameters_field_pos by metis+
  then show ?case by auto
qed

declare OtpParameters_decode.simps [simp del]

lemma OtpParameters_decode_pos:
  "OtpParameters_decode buf c pos m = Inr (m', q) \<Longrightarrow> pos \<le> q"
proof (induction buf c pos m rule: OtpParameters_decode.induct)
  case (1 buf c pos m)
  show ?case
  proof (cases "pos < c")
    case False
    with "1.prems" show ?thesis
      by (subst (asm) OtpParameters_decode.simps) simp
  next
    case True
    with "1.prems" obtain t p m1 p1 where u: "uint32 buf pos = Inr (t, p)"
      and f: "OtpParameters_field t buf p m = Inr (m1, p1)"
      and r: "OtpParameters_decode buf c p1 m1 = Inr (m', q)"
      by (subst (asm) OtpParameters_decode.simps) (auto split: sum.splits)
    from u have "pos < p" using uint32_pos by blast
    moreover from f have "p \<le> p1" by (rule OtpParameters_field_pos)
    moreover from "1.IH" [OF True u refl f refl] r have "p1 \<le> q" by simp
    ultimately show ?thesis by simp
  qed
qed

text \<open>The decoded \<open>Payload\<close> message.\<close>

record Payload =
  m_otpParameters :: "OtpParameters list"
  m_version :: "int option"
  m_batchSize :: "int option"
  m_batchIndex :: "int option"
  m_batchId :: "int option"

definition Payload_empty :: Payload where
  "Payload_empty =
     \<lparr>m_otpParameters = [], m_version = None, m_batchSize = None, m_batchIndex = None,
      m_batchId = None\<rparr>"

definition Payload_field ::
  "32 word \<Rightarrow> byte list \<Rightarrow> nat \<Rightarrow> Payload \<Rightarrow> js_error + (Payload \<times> nat)" where
  "Payload_field t buf pos m =
     (let field = drop_bit 3 t in
      if field = 1 then
        (case uint32 buf pos of
           Inl e \<Rightarrow> Inl e
         | Inr (l, p) \<Rightarrow>
             (case OtpParameters_decode buf (p + unat l) p OtpParameters_empty of
                Inl e \<Rightarrow> Inl e
              | Inr (v, p') \<Rightarrow> Inr (m\<lparr>m_otpParameters := m_otpParameters m @ [v]\<rparr>, p')))
      else if field = 2 then
        (case int32 buf pos of Inl e \<Rightarrow> Inl e | Inr (v, p) \<Rightarrow> Inr (m\<lparr>m_version := Some v\<rparr>, p))
      else if field = 3 then
        (case int32 buf pos of Inl e \<Rightarrow> Inl e | Inr (v, p) \<Rightarrow> Inr (m\<lparr>m_batchSize := Some v\<rparr>, p))
      else if field = 4 then
        (case int32 buf pos of Inl e \<Rightarrow> Inl e | Inr (v, p) \<Rightarrow> Inr (m\<lparr>m_batchIndex := Some v\<rparr>, p))
      else if field = 5 then
        (case int32 buf pos of Inl e \<Rightarrow> Inl e | Inr (v, p) \<Rightarrow> Inr (m\<lparr>m_batchId := Some v\<rparr>, p))
      else
        (case skipType (t AND 7) buf pos of Inl e \<Rightarrow> Inl e | Inr p \<Rightarrow> Inr (m, p)))"

lemma Payload_field_pos:
  assumes "Payload_field t buf pos m = Inr (m', p)"
  shows "pos \<le> p"
  using assms unfolding Payload_field_def Let_def
  by (auto split: if_splits sum.splits
      dest!: uint32_pos OtpParameters_decode_pos int32_pos skipType_pos)

function Payload_decode_loop ::
  "byte list \<Rightarrow> nat \<Rightarrow> Payload \<Rightarrow> js_error + Payload" where
  "Payload_decode_loop buf pos m =
     (if pos < length buf then
        (case uint32 buf pos of
           Inl e \<Rightarrow> Inl e
         | Inr (t, p) \<Rightarrow>
             (case Payload_field t buf p m of
                Inl e \<Rightarrow> Inl e
              | Inr (m', p') \<Rightarrow> Payload_decode_loop buf p' m'))
      else Inr m)"
  by pat_completeness auto
termination
proof (relation "measure (\<lambda>(buf, pos, m). length buf - pos)", goal_cases)
  case 1
  show ?case by simp
next
  case (2 buf pos m x t p y m' p')
  then have "pos < p \<and> p \<le> length buf" "p \<le> p'"
    using uint32_pos Payload_field_pos by metis+
  then show ?case by auto
qed

declare Payload_decode_loop.simps [simp del]

text \<open>\<open>Payload.decode(data)\<close>: a reader at position 0, the loop up to \<open>r.len\<close>.\<close>

definition Payload_decode :: "byte list \<Rightarrow> js_error + Payload" where
  "Payload_decode data = Payload_decode_loop data 0 Payload_empty"

section \<open>Payload.toObject\<close>

text \<open>The enums of the schema: \<open>valuesById\<close>, the name of a number.\<close>

definition Algorithm_valuesById :: "int \<rightharpoonup> string" where
  "Algorithm_valuesById =
     [0 \<mapsto> ''ALGORITHM_UNSPECIFIED'', 1 \<mapsto> ''ALGORITHM_SHA1'', 2 \<mapsto> ''ALGORITHM_SHA256'',
      3 \<mapsto> ''ALGORITHM_SHA512'', 4 \<mapsto> ''ALGORITHM_MD5'']"

definition DigitCount_valuesById :: "int \<rightharpoonup> string" where
  "DigitCount_valuesById =
     [0 \<mapsto> ''DIGIT_COUNT_UNSPECIFIED'', 1 \<mapsto> ''DIGIT_COUNT_SIX'', 2 \<mapsto> ''DIGIT_COUNT_EIGHT'']"

definition OtpType_valuesById :: "int \<rightharpoonup> string" where
  "OtpType_valuesById =
     [0 \<mapsto> ''OTP_TYPE_UNSPECIFIED'', 1 \<mapsto> ''OTP_TYPE_HOTP'', 2 \<mapsto> ''OTP_TYPE_TOTP'']"

text \<open>\<open>Long.prototype.toString\<close>: the decimal digits of an unsigned value.\<close>

fun decimal :: "nat \<Rightarrow> string" where
  "decimal n =
     (if n < 10 then [''0123456789'' ! n]
      else decimal (n div 10) @ [''0123456789'' ! (n mod 10)])"

declare decimal.simps [simp del]

text \<open>
  \<open>OtpParameters.toObject(m, {longs: String, enums: String, bytes: Buffer})\<close>. There
  is no \<open>defaults: true\<close>, so only the own properties of the message are copied: a
  field that the payload does not carry stays undefined. An enum number becomes its
  name; a number without name reads as undefined here (protobufjs 7 keeps the number,
  which is no key of the tables of the program either). The counter, a Long, becomes
  its decimal string.
\<close>

definition OtpParameters_toObject :: "OtpParameters \<Rightarrow> otp_params" where
  "OtpParameters_toObject m =
     \<lparr>secret = m_secret m,
      name = m_name m,
      issuer = m_issuer m,
      algorithm = Option.bind (m_algorithm m) Algorithm_valuesById,
      digits = Option.bind (m_digits m) DigitCount_valuesById,
      type = Option.bind (m_type m) OtpType_valuesById,
      counter = map_option (\<lambda>c. decimal (unat c)) (m_counter m)\<rparr>"

text \<open>
  \<open>Payload.toObject\<close>: \<open>otpParameters\<close> is set only when the message has at least one
  (no \<open>arrays: true\<close>).
\<close>

record payload_object =
  otpParameters :: "otp_params list option"
  version :: "int option"
  batchSize :: "int option"
  batchIndex :: "int option"
  batchId :: "int option"

definition Payload_toObject :: "Payload \<Rightarrow> payload_object" where
  "Payload_toObject m =
     \<lparr>otpParameters =
        (if m_otpParameters m \<noteq> [] then Some (map OtpParameters_toObject (m_otpParameters m))
         else None),
      version = m_version m,
      batchSize = m_batchSize m,
      batchIndex = m_batchIndex m,
      batchId = m_batchId m\<rparr>"

section \<open>generate-html.js: decodeUrl and processAllUrls\<close>

text \<open>
  The object that \<open>decodeUrl\<close> returns for one account. Its properties \<open>name\<close>,
  \<open>issuer\<close>, \<open>secret\<close>, \<open>type\<close>, \<open>algorithm\<close>, \<open>digits\<close> carry the prefix \<open>a_\<close> here, to
  keep them apart from those of the decoded record.
\<close>

record account =
  a_name :: "string option"
  a_issuer :: "string option"
  a_secret :: string
  a_type :: "string option"
  a_algorithm :: "string option"
  a_digits :: "string option"
  otpauthUrl :: string

definition account_of :: "otp_params \<Rightarrow> js_error + account" where
  "account_of params =
     (case createOtpauthUrl params of
        Inl e \<Rightarrow> Inl e
      | Inr url \<Rightarrow>
          (case secret params of
             None \<Rightarrow> Inl TypeError
           | Some bs \<Rightarrow>
               Inr \<lparr>a_name = name params,
                    a_issuer = issuer params,
                    a_secret = toString_hex bs,
                    a_type = type params,
                    a_algorithm = algorithm params,
                    a_digits = digits params,
                    otpauthUrl = url\<rparr>))"

text \<open>
  \<open>decodeUrl\<close>: the body of the \<open>try\<close>, then the \<open>catch\<close>, which logs the error and
  returns no account. The result is the returned array and what was logged.
  (\<open>protobuf.parse(protoDefinition)\<close> reads the constant schema and does not fail.)
\<close>

definition decodeUrl_try :: "string \<Rightarrow> js_error + account list" where
  "decodeUrl_try migrationUrl =
     (case extractDataFromUrl migrationUrl of
        Inl e \<Rightarrow> Inl e
      | Inr data \<Rightarrow>
          (case Payload_decode data of
             Inl e \<Rightarrow> Inl e
           | Inr message \<Rightarrow>
               (case otpParameters (Payload_toObject message) of
                  None \<Rightarrow> Inl TypeError
                | Some ps \<Rightarrow> map_throwing account_of ps)))"

definition decodeUrl :: "string \<Rightarrow> account list \<times> js_error list" where
  "decodeUrl migrationUrl =
     (case decodeUrl_try migrationUrl of
        Inl error \<Rightarrow> ([], [error])
      | Inr accounts \<Rightarrow> (accounts, []))"

text \<open>
  \<open>processAllUrls\<close>, up to the hand-over to the QR and HTML rendering: what it writes to
  the console and the accounts it renders. \<open>decodeUrl\<close> has no \<open>await\<close>, so the URLs are
  decoded one after the other, in order. Rendering and writing the file are taken to
  succeed.
\<close>

datatype console_line =
    ErrorDecoding js_error      \<comment> \<open>\<open>console.error('Error decoding migration data:', error)\<close>\<close>
  | NoValidAccounts             \<comment> \<open>\<open>console.log('No valid accounts found.')\<close>\<close>
  | HtmlFileGenerated           \<comment> \<open>\<open>console.log(`HTML file generated: ...`)\<close>\<close>
  | TotalAccounts nat           \<comment> \<open>\<open>console.log(`Total accounts: ${allAccounts.length}`)\<close>\<close>

record run =
  console :: "console_line list"
  rendered :: "account list"

definition processAllUrls :: "string list \<Rightarrow> run" where
  "processAllUrls migrationUrls =
     (let allAccountsArrays = map decodeUrl migrationUrls;
          errors = map ErrorDecoding (concat (map snd allAccountsArrays));
          allAccounts = concat (map fst allAccountsArrays)
      in if length allAccounts = 0
         then \<lparr>console = errors @ [NoValidAccounts], rendered = []\<rparr>
         else \<lparr>console = errors @ [HtmlFileGenerated, TotalAccounts (length allAccounts)],
               rendered = allAccounts\<rparr>)"

section \<open>The secret survives the round trip\<close>






























lemma join_Cons: "join sep (x # xs) = x @ concat (map (\<lambda>y. sep @ y) xs)"
  by (induction sep "x # xs" arbitrary: x xs rule: join.induct) simp_all






text \<open>The URL that \<open>createOtpauthUrl\<close> builds, written out.\<close>

lemma createOtpauthUrl_explicit:
  assumes "secret params = Some bs"
  shows "createOtpauthUrl params =
     Inr (''otpauth://'' @ js_string (lookup otpTypes (type params)) @ ''/''
          @ encodeURIComponent (js_string (name params))
          @ ''?secret='' @ filter (\<lambda>c. c \<noteq> CHR ''='') (encodeBytes bs)
          @ (if truthy (issuer params)
             then ''&issuer='' @ encodeURIComponent (js_string (issuer params)) else [])
          @ ''&algorithm='' @ js_string (lookup algorithmNames (algorithm params))
          @ ''&digits='' @ js_string (lookup digitCounts (digits params))
          @ (if lookup otpTypes (type params) = Some ''hotp'' \<and> truthy (counter params)
             then ''&counter='' @ js_string (counter params) else [])
          @ (if lookup otpTypes (type params) = Some ''totp'' then ''&period=30'' else []))"
  using assms
  by (simp add: createOtpauthUrl_def secretToBase32_def base32_encode_def Let_def join_Cons)







section \<open>Normalization\<close>







section \<open>The query parameters\<close>



text \<open>
  The counter is a decimal string (\<open>longs: String\<close>), so a counter 0 that the payload
  carries is the truthy string \<open>0\<close> and is written out.
\<close>

lemma counter_zero_string:
  "createOtpauthUrl
     \<lparr>secret = Some [222, 173, 190, 239], name = Some ''bob'', issuer = None,
      algorithm = Some ''ALGORITHM_SHA1'', digits = Some ''DIGIT_COUNT_SIX'',
      type = Some ''OTP_TYPE_HOTP'', counter = Some ''0''\<rparr>
   = Inr ''otpauth://hotp/bob?secret=32W353Y&algorithm=SHA1&digits=6&counter=0''"
  by code_simp

section \<open>The transport unwrapper\<close>



text \<open>
  The comparison is made after the parser has lower-cased protocol and host: a URL that
  spells them in upper case has the protocol \<open>otpauth-migration:\<close> and the host
  \<open>offline\<close> and is unwrapped.
\<close>

lemma upper_case_transport:
  "protocol (url_parse ''OTPAUTH-MIGRATION://OFFLINE?data=Cg4K'') = Some ''otpauth-migration:''
   \<and> host (url_parse ''OTPAUTH-MIGRATION://OFFLINE?data=Cg4K'') = Some ''offline''
   \<and> extractDataFromUrl ''OTPAUTH-MIGRATION://OFFLINE?data=Cg4K'' = Inr [10, 14, 10]"
  by code_simp

text \<open>
  Standard base64 as the spec means it: characters of the alphabet \<open>A-Z a-z 0-9 + /\<close>,
  then no, one or two \<open>=\<close>, four characters per group.
\<close>

definition well_formed_base64 :: "string \<Rightarrow> bool" where
  "well_formed_base64 s \<longleftrightarrow>
     length s mod 4 = 0
     \<and> list_all (\<lambda>c. c \<in> set ''ABCDEFGHIJKLMNOPQRSTUVWXYZabcdefghijklmnopqrstuvwxyz0123456789+/'')
          (takeWhile (\<lambda>c. c \<noteq> CHR ''='') s)
     \<and> dropWhile (\<lambda>c. c \<noteq> CHR ''='') s \<in> set ['''', ''='', ''=='']"

text \<open>
  C4, as stated, fails: \<open>!!!!\<close> is no base64, and the unwrapper returns the empty buffer
  for it.
\<close>

theorem malformed_base64_counterexample:
  "protocol (url_parse ''otpauth-migration://offline?data=!!!!'') = Some ''otpauth-migration:''
   \<and> host (url_parse ''otpauth-migration://offline?data=!!!!'') = Some ''offline''
   \<and> query (url_parse ''otpauth-migration://offline?data=!!!!'') ''data'' = Some (QString ''!!!!'')
   \<and> \<not> well_formed_base64 (replace_spaces ''!!!!'')
   \<and> extractDataFromUrl ''otpauth-migration://offline?data=!!!!'' = Inr []"
  by code_simp

text \<open>
  C4, amended: with the right protocol and host and \<open>data\<close> given once, the unwrapper never
  fails, well-formed base64 or not: it returns what \<open>Buffer.from\<close> reads in the value after
  the spaces have become \<open>+\<close> (characters outside the alphabet skipped, the text after the
  first \<open>=\<close> ignored).
\<close>

theorem base64_never_rejected:
  assumes "protocol (url_parse migrationUrl) = Some ''otpauth-migration:''"
    and "host (url_parse migrationUrl) = Some ''offline''"
    and "query (url_parse migrationUrl) ''data'' = Some (QString data)"
  shows "extractDataFromUrl migrationUrl = Inr (Buffer_from_base64 (replace_spaces data))"
  using assms by (simp add: extractDataFromUrl_def Let_def)

theorem base64_never_rejected_witness:
  "protocol (url_parse ''otpauth-migration://offline?data=Cg4K*BUhl==bGxv'') = Some ''otpauth-migration:''
   \<and> host (url_parse ''otpauth-migration://offline?data=Cg4K*BUhl==bGxv'') = Some ''offline''
   \<and> query (url_parse ''otpauth-migration://offline?data=Cg4K*BUhl==bGxv'') ''data''
       = Some (QString ''Cg4K*BUhl==bGxv'')
   \<and> extractDataFromUrl ''otpauth-migration://offline?data=Cg4K*BUhl==bGxv''
       = Inr [10, 14, 10, 5, 72, 101]"
proof -
  have 1: "protocol (url_parse ''otpauth-migration://offline?data=Cg4K*BUhl==bGxv'') = Some ''otpauth-migration:''"
    by code_simp
  have 2: "host (url_parse ''otpauth-migration://offline?data=Cg4K*BUhl==bGxv'') = Some ''offline''"
    by code_simp
  have 3: "query (url_parse ''otpauth-migration://offline?data=Cg4K*BUhl==bGxv'') ''data''
       = Some (QString ''Cg4K*BUhl==bGxv'')"
    by code_simp
  have 4: "Buffer_from_base64 (replace_spaces ''Cg4K*BUhl==bGxv'') = [10, 14, 10, 5, 72, 101]"
    by code_simp
  show ?thesis
    using base64_never_rejected [OF 1 2 3] 1 2 3 4 by simp
qed

lemma replace_spaces_update:
  assumes "i < length data" and "data ! i = CHR '' ''"
  shows "replace_spaces (data[i := CHR ''+'']) = replace_spaces data"
  using assms by (simp add: replace_spaces_def map_update list_update_same_conv)

text \<open>
  C9. Two URLs of the right protocol and host whose \<open>data\<close> values differ in one place,
  a space in the one and \<open>+\<close> in the other, give the same octets.
\<close>

theorem space_as_plus:
  assumes "protocol (url_parse u) = Some ''otpauth-migration:''" "host (url_parse u) = Some ''offline''"
    and "protocol (url_parse u') = Some ''otpauth-migration:''" "host (url_parse u') = Some ''offline''"
    and "query (url_parse u) ''data'' = Some (QString data)"
    and "i < length data" and "data ! i = CHR '' ''"
    and "query (url_parse u') ''data'' = Some (QString (data[i := CHR ''+'']))"
  shows "extractDataFromUrl u = extractDataFromUrl u'
         \<and> extractDataFromUrl u = Inr (Buffer_from_base64 (replace_spaces data))"
  using assms
  by (simp add: extractDataFromUrl_def Let_def replace_spaces_update)

theorem space_as_plus_witness:
  "query (url_parse ''otpauth-migration://offline?data=ChkKBfvv vvv/'') ''data''
     = Some (QString ''ChkKBfvv vvv/'')
   \<and> query (url_parse ''otpauth-migration://offline?data=ChkKBfvv%2Bvvv/'') ''data''
     = Some (QString (''ChkKBfvv vvv/''[8 := CHR ''+'']))
   \<and> extractDataFromUrl ''otpauth-migration://offline?data=ChkKBfvv vvv/''
     = extractDataFromUrl ''otpauth-migration://offline?data=ChkKBfvv%2Bvvv/''
   \<and> extractDataFromUrl ''otpauth-migration://offline?data=ChkKBfvv vvv/''
     = Inr [10, 25, 10, 5, 251, 239, 250, 251, 239]"
proof -
  let ?u = "''otpauth-migration://offline?data=ChkKBfvv vvv/''"
  let ?u' = "''otpauth-migration://offline?data=ChkKBfvv%2Bvvv/''"
  have 1: "protocol (url_parse ?u) = Some ''otpauth-migration:''" by code_simp
  have 2: "host (url_parse ?u) = Some ''offline''" by code_simp
  have 3: "protocol (url_parse ?u') = Some ''otpauth-migration:''" by code_simp
  have 4: "host (url_parse ?u') = Some ''offline''" by code_simp
  have 5: "query (url_parse ?u) ''data'' = Some (QString ''ChkKBfvv vvv/'')" by code_simp
  have 6: "8 < length ''ChkKBfvv vvv/''" by simp
  have 7: "''ChkKBfvv vvv/'' ! 8 = CHR '' ''" by simp
  have 8: "query (url_parse ?u') ''data'' = Some (QString (''ChkKBfvv vvv/''[8 := CHR ''+'']))"
    by code_simp
  have 9: "Buffer_from_base64 (replace_spaces ''ChkKBfvv vvv/'')
           = [10, 25, 10, 5, 251, 239, 250, 251, 239]" by code_simp
  from space_as_plus [OF 1 2 3 4 5 6 7 8]
  have a: "extractDataFromUrl ?u = extractDataFromUrl ?u'"
    and b: "extractDataFromUrl ?u = Inr (Buffer_from_base64 (replace_spaces ''ChkKBfvv vvv/''))"
    by blast+
  from b 9 have c: "extractDataFromUrl ?u = Inr [10, 25, 10, 5, 251, 239, 250, 251, 239]"
    by (simp only:)
  from 5 8 a c show ?thesis by blast
qed

text \<open>
  C10. A URL of the right protocol and host without \<open>data\<close> is not rejected by the
  unwrapper: it gives the empty buffer. The payload decoder reads an empty message from
  it; the message has no \<open>otpParameters\<close>, the \<open>map\<close> over them throws, and \<open>decodeUrl\<close>
  returns no record.
\<close>

theorem missing_data_is_empty:
  assumes "protocol (url_parse migrationUrl) = Some ''otpauth-migration:''"
    and "host (url_parse migrationUrl) = Some ''offline''"
    and "query (url_parse migrationUrl) ''data'' = None"
  shows "extractDataFromUrl migrationUrl = Inr [] \<and> fst (decodeUrl migrationUrl) = []"
proof -
  have e: "extractDataFromUrl migrationUrl = Inr []"
    using assms by (simp add: extractDataFromUrl_def Let_def Buffer_from_base64_def
        replace_spaces_def List.map_filter_simps)
  have "Payload_decode [] = Inr Payload_empty"
    by (simp add: Payload_decode_def Payload_decode_loop.simps)
  with e have "decodeUrl_try migrationUrl = Inl TypeError"
    by (simp add: decodeUrl_try_def Payload_toObject_def Payload_empty_def)
  with e show ?thesis by (simp add: decodeUrl_def)
qed

theorem missing_data_is_empty_witness:
  "protocol (url_parse ''otpauth-migration://offline'') = Some ''otpauth-migration:''
   \<and> host (url_parse ''otpauth-migration://offline'') = Some ''offline''
   \<and> query (url_parse ''otpauth-migration://offline'') ''data'' = None
   \<and> extractDataFromUrl ''otpauth-migration://offline'' = Inr []
   \<and> fst (decodeUrl ''otpauth-migration://offline'') = []"
proof -
  have 1: "protocol (url_parse ''otpauth-migration://offline'') = Some ''otpauth-migration:''"
    by code_simp
  have 2: "host (url_parse ''otpauth-migration://offline'') = Some ''offline''" by code_simp
  have 3: "query (url_parse ''otpauth-migration://offline'') ''data'' = None" by code_simp
  show ?thesis using missing_data_is_empty [OF 1 2 3] 1 2 3 by simp
qed

section \<open>Whole runs of decodeUrl\<close>

text \<open>
  C6. The payload with the one record secret \<open>48 65 6c 6c 6f\<close>, name \<open>alice\<close>, issuer
  \<open>Example\<close>, SHA256, eight digits, TOTP is the 31 octets below, in base64
  \<open>Ch0KBUhlbGxvEgVhbGljZRoHRXhhbXBsZSACKAIwAg==\<close>. Its migration URI decodes to one
  account with the canonical URI of the scenario and the secret in lowercase
  hexadecimal; nothing is logged.
\<close>

theorem concrete_scenario:
  "extractDataFromUrl ''otpauth-migration://offline?data=Ch0KBUhlbGxvEgVhbGljZRoHRXhhbXBsZSACKAIwAg==''
   = Inr [0x0a, 0x1d,
          0x0a, 0x05, 0x48, 0x65, 0x6c, 0x6c, 0x6f,
          0x12, 0x05, 0x61, 0x6c, 0x69, 0x63, 0x65,
          0x1a, 0x07, 0x45, 0x78, 0x61, 0x6d, 0x70, 0x6c, 0x65,
          0x20, 0x02, 0x28, 0x02, 0x30, 0x02]
   \<and> decodeUrl ''otpauth-migration://offline?data=Ch0KBUhlbGxvEgVhbGljZRoHRXhhbXBsZSACKAIwAg==''
   = ([\<lparr>a_name = Some ''alice'', a_issuer = Some ''Example'', a_secret = ''48656c6c6f'',
        a_type = Some ''OTP_TYPE_TOTP'', a_algorithm = Some ''ALGORITHM_SHA256'',
        a_digits = Some ''DIGIT_COUNT_EIGHT'',
        otpauthUrl =
          ''otpauth://totp/alice?secret=JBSWY3DP&issuer=Example&algorithm=SHA256&digits=8&period=30''\<rparr>],
      [])"
  by code_simp

theorem concrete_scenario_witness:
  "protocol (url_parse ''otpauth-migration://offline?data=Ch0KBUhlbGxvEgVhbGljZRoHRXhhbXBsZSACKAIwAg=='')
     = Some ''otpauth-migration:''
   \<and> host (url_parse ''otpauth-migration://offline?data=Ch0KBUhlbGxvEgVhbGljZRoHRXhhbXBsZSACKAIwAg=='')
     = Some ''offline''
   \<and> map otpauthUrl
        (fst (decodeUrl ''otpauth-migration://offline?data=Ch0KBUhlbGxvEgVhbGljZRoHRXhhbXBsZSACKAIwAg==''))
     = [''otpauth://totp/alice?secret=JBSWY3DP&issuer=Example&algorithm=SHA256&digits=8&period=30'']
   \<and> map a_secret
        (fst (decodeUrl ''otpauth-migration://offline?data=Ch0KBUhlbGxvEgVhbGljZRoHRXhhbXBsZSACKAIwAg==''))
     = [''48656c6c6f'']"
proof -
  have "protocol (url_parse ''otpauth-migration://offline?data=Ch0KBUhlbGxvEgVhbGljZRoHRXhhbXBsZSACKAIwAg=='')
     = Some ''otpauth-migration:''"
    by code_simp
  moreover
  have "host (url_parse ''otpauth-migration://offline?data=Ch0KBUhlbGxvEgVhbGljZRoHRXhhbXBsZSACKAIwAg=='')
     = Some ''offline''"
    by code_simp
  ultimately show ?thesis using concrete_scenario by simp
qed

section \<open>Defaults\<close>

text \<open>
  When the payload carries the three enum fields with the value 0, \<open>toObject\<close> gives the
  names \<open>..._UNSPECIFIED\<close> and the tables resolve them to the defaults.
\<close>

lemma defaults_of_unspecified_names:
  assumes "secret params = Some bs"
    and "algorithm params = Some ''ALGORITHM_UNSPECIFIED''"
    and "digits params = Some ''DIGIT_COUNT_UNSPECIFIED''"
    and "type params = Some ''OTP_TYPE_UNSPECIFIED''"
  shows "createOtpauthUrl params =
     Inr (''otpauth://totp/'' @ encodeURIComponent (js_string (name params))
          @ ''?secret='' @ filter (\<lambda>c. c \<noteq> CHR ''='') (encodeBytes bs)
          @ (if truthy (issuer params)
             then ''&issuer='' @ encodeURIComponent (js_string (issuer params)) else [])
          @ ''&algorithm=SHA1&digits=6&period=30'')"
  using assms
  by (simp add: createOtpauthUrl_explicit [OF assms(1)] lookup_def js_string_def
        algorithmNames_def digitCounts_def otpTypes_def)

text \<open>
  C5. A payload that leaves the three enum fields out, which is how a proto3 encoder
  writes the value 0: the record \<open>secret = 48 65 6c 6c 6f\<close>, \<open>name = alice\<close> and nothing
  else. \<open>toObject\<close> is called without \<open>defaults\<close>, so the three fields are undefined, the
  tables are read at the key \<open>undefined\<close>, and the URL carries \<open>undefined\<close> in place of
  the type, the algorithm and the digits, and no period.
\<close>

theorem absent_enum_fields_undefined:
  "extractDataFromUrl ''otpauth-migration://offline?data=Cg4KBUhlbGxvEgVhbGljZQ==''
   = Inr [0x0a, 0x0e,
          0x0a, 0x05, 0x48, 0x65, 0x6c, 0x6c, 0x6f,
          0x12, 0x05, 0x61, 0x6c, 0x69, 0x63, 0x65]
   \<and> decodeUrl ''otpauth-migration://offline?data=Cg4KBUhlbGxvEgVhbGljZQ==''
   = ([\<lparr>a_name = Some ''alice'', a_issuer = None, a_secret = ''48656c6c6f'',
        a_type = None, a_algorithm = None, a_digits = None,
        otpauthUrl =
          ''otpauth://undefined/alice?secret=JBSWY3DP&algorithm=undefined&digits=undefined''\<rparr>],
      [])"
  by code_simp

theorem absent_enum_fields_undefined_witness:
  "protocol (url_parse ''otpauth-migration://offline?data=Cg4KBUhlbGxvEgVhbGljZQ=='')
     = Some ''otpauth-migration:''
   \<and> host (url_parse ''otpauth-migration://offline?data=Cg4KBUhlbGxvEgVhbGljZQ=='') = Some ''offline''
   \<and> map otpauthUrl (fst (decodeUrl ''otpauth-migration://offline?data=Cg4KBUhlbGxvEgVhbGljZQ==''))
     = [''otpauth://undefined/alice?secret=JBSWY3DP&algorithm=undefined&digits=undefined'']"
proof -
  have "protocol (url_parse ''otpauth-migration://offline?data=Cg4KBUhlbGxvEgVhbGljZQ=='')
     = Some ''otpauth-migration:''"
    by code_simp
  moreover
  have "host (url_parse ''otpauth-migration://offline?data=Cg4KBUhlbGxvEgVhbGljZQ=='') = Some ''offline''"
    by code_simp
  ultimately show ?thesis using absent_enum_fields_undefined by simp
qed

section \<open>Batches\<close>

text \<open>The errors that a run has logged, in order.\<close>

fun logged_errors :: "console_line list \<Rightarrow> js_error list" where
  "logged_errors [] = []"
| "logged_errors (ErrorDecoding e # ls) = e # logged_errors ls"
| "logged_errors (l # ls) = logged_errors ls"

lemma logged_errors_append: "logged_errors (xs @ ys) = logged_errors xs @ logged_errors ys"
  by (induction xs rule: logged_errors.induct) simp_all

lemma logged_errors_map: "logged_errors (map ErrorDecoding es) = es"
  by (induction es) simp_all

lemma decodeUrl_fst:
  "fst (decodeUrl u) = (case decodeUrl_try u of Inl e \<Rightarrow> [] | Inr accounts \<Rightarrow> accounts)"
  by (simp add: decodeUrl_def split: sum.splits)

lemma decodeUrl_snd:
  "snd (decodeUrl u) = (case decodeUrl_try u of Inl e \<Rightarrow> [e] | Inr accounts \<Rightarrow> [])"
  by (simp add: decodeUrl_def split: sum.splits)

text \<open>
  C8. In every batch, a URL whose decoding throws gives no account and one logged error,
  and every other URL gives its accounts: the accounts of the run are those of the URLs
  that decode, in order, and the logged errors are those of the URLs that do not. With a
  URL of the wrong scheme and a URL with two accounts, the run has two accounts and
  one logged error.
\<close>

theorem batch_partial_failure:
  "rendered (processAllUrls urls)
     = concat (map (\<lambda>u. case decodeUrl_try u of Inl e \<Rightarrow> [] | Inr accounts \<Rightarrow> accounts) urls)
   \<and> logged_errors (console (processAllUrls urls))
     = concat (map (\<lambda>u. case decodeUrl_try u of Inl e \<Rightarrow> [e] | Inr accounts \<Rightarrow> []) urls)
   \<and> processAllUrls
       [''otpauth://totp/alice?secret=JBSWY3DP'',
        ''otpauth-migration://offline?data=Ch0KBUhlbGxvEgVhbGljZRoHRXhhbXBsZSABKAEwAgoVCgTerb7vEgNib2IaACABKAEwATgF'']
     = \<lparr>console = [ErrorDecoding InvalidMigrationUrl, HtmlFileGenerated, TotalAccounts 2],
        rendered =
          [\<lparr>a_name = Some ''alice'', a_issuer = Some ''Example'', a_secret = ''48656c6c6f'',
             a_type = Some ''OTP_TYPE_TOTP'', a_algorithm = Some ''ALGORITHM_SHA1'',
             a_digits = Some ''DIGIT_COUNT_SIX'',
             otpauthUrl =
               ''otpauth://totp/alice?secret=JBSWY3DP&issuer=Example&algorithm=SHA1&digits=6&period=30''\<rparr>,
           \<lparr>a_name = Some ''bob'', a_issuer = Some '''', a_secret = ''deadbeef'',
             a_type = Some ''OTP_TYPE_HOTP'', a_algorithm = Some ''ALGORITHM_SHA1'',
             a_digits = Some ''DIGIT_COUNT_SIX'',
             otpauthUrl = ''otpauth://hotp/bob?secret=32W353Y&algorithm=SHA1&digits=6&counter=5''\<rparr>]\<rparr>"
proof (intro conjI)
  have f: "map fst (map decodeUrl urls)
           = map (\<lambda>u. case decodeUrl_try u of Inl e \<Rightarrow> [] | Inr accounts \<Rightarrow> accounts) urls"
    by (simp add: decodeUrl_fst)
  have s: "map snd (map decodeUrl urls)
           = map (\<lambda>u. case decodeUrl_try u of Inl e \<Rightarrow> [e] | Inr accounts \<Rightarrow> []) urls"
    by (simp add: decodeUrl_snd)
  show "rendered (processAllUrls urls)
     = concat (map (\<lambda>u. case decodeUrl_try u of Inl e \<Rightarrow> [] | Inr accounts \<Rightarrow> accounts) urls)"
    unfolding processAllUrls_def Let_def f by auto
  show "logged_errors (console (processAllUrls urls))
     = concat (map (\<lambda>u. case decodeUrl_try u of Inl e \<Rightarrow> [e] | Inr accounts \<Rightarrow> []) urls)"
    unfolding processAllUrls_def Let_def s
    by (simp add: logged_errors_append logged_errors_map)
next
  show "processAllUrls
       [''otpauth://totp/alice?secret=JBSWY3DP'',
        ''otpauth-migration://offline?data=Ch0KBUhlbGxvEgVhbGljZRoHRXhhbXBsZSABKAEwAgoVCgTerb7vEgNib2IaACABKAEwATgF'']
     = \<lparr>console = [ErrorDecoding InvalidMigrationUrl, HtmlFileGenerated, TotalAccounts 2],
        rendered =
          [\<lparr>a_name = Some ''alice'', a_issuer = Some ''Example'', a_secret = ''48656c6c6f'',
             a_type = Some ''OTP_TYPE_TOTP'', a_algorithm = Some ''ALGORITHM_SHA1'',
             a_digits = Some ''DIGIT_COUNT_SIX'',
             otpauthUrl =
               ''otpauth://totp/alice?secret=JBSWY3DP&issuer=Example&algorithm=SHA1&digits=6&period=30''\<rparr>,
           \<lparr>a_name = Some ''bob'', a_issuer = Some '''', a_secret = ''deadbeef'',
             a_type = Some ''OTP_TYPE_HOTP'', a_algorithm = Some ''ALGORITHM_SHA1'',
             a_digits = Some ''DIGIT_COUNT_SIX'',
             otpauthUrl = ''otpauth://hotp/bob?secret=32W353Y&algorithm=SHA1&digits=6&counter=5''\<rparr>]\<rparr>"
    by code_simp
qed

theorem batch_partial_failure_witness:
  "protocol (url_parse ''otpauth://totp/alice?secret=JBSWY3DP'') \<noteq> Some ''otpauth-migration:''
   \<and> length (rendered (processAllUrls
       [''otpauth://totp/alice?secret=JBSWY3DP'',
        ''otpauth-migration://offline?data=Ch0KBUhlbGxvEgVhbGljZRoHRXhhbXBsZSABKAEwAgoVCgTerb7vEgNib2IaACABKAEwATgF''])) = 2
   \<and> length (logged_errors (console (processAllUrls
       [''otpauth://totp/alice?secret=JBSWY3DP'',
        ''otpauth-migration://offline?data=Ch0KBUhlbGxvEgVhbGljZRoHRXhhbXBsZSABKAEwAgoVCgTerb7vEgNib2IaACABKAEwATgF'']))) = 1"
proof -
  have "protocol (url_parse ''otpauth://totp/alice?secret=JBSWY3DP'') \<noteq> Some ''otpauth-migration:''"
    by code_simp
  then show ?thesis using batch_partial_failure [of "[]"] by simp
qed

end
